theory Spec2Isabelle
  imports Complex_Main "HOL-Library.AList" "HOL-Library.Multiset"
begin

section \<open>Weighted multi-agent fraud scoring (utils/weighted\_scoring.py)\<close>

text \<open>
  Python floats and numpy float64 values are modelled as real numbers: sums, products and
  quotients are exact, \<open>np.sqrt\<close> is \<^const>\<open>sqrt\<close> and \<open>np.exp\<close> is \<^const>\<open>exp\<close>.
  A Python dict is an association list in insertion order; its keys are distinct.
\<close>

subsection \<open>Exceptions\<close>

datatype py_error = KeyError string | AgentError string

subsection \<open>Dicts\<close>

text \<open>\<open>d.get(k, default)\<close>.\<close>

definition dict_get :: "('k \<times> 'v) list \<Rightarrow> 'k \<Rightarrow> 'v \<Rightarrow> 'v" where
  "dict_get d k dflt = (case map_of d k of None \<Rightarrow> dflt | Some v \<Rightarrow> v)"

text \<open>\<open>d.update(new)\<close>: every item of \<open>new\<close> is assigned in turn; an existing key keeps its
  position, a new key is appended.\<close>

definition dict_update :: "('k \<times> 'v) list \<Rightarrow> ('k \<times> 'v) list \<Rightarrow> ('k \<times> 'v) list" where
  "dict_update d new = foldl (\<lambda>acc kv. AList.update (fst kv) (snd kv) acc) d new"

subsection \<open>WeightedScoringSystem: the weight vector\<close>

definition default_weights :: "(string \<times> real) list" where
  "default_weights =
     [(''coverage_agent'', 0.25),
      (''patient_flip_agent'', 0.20),
      (''high_dollar_agent'', 0.20),
      (''rejection_agent'', 0.20),
      (''network_agent'', 0.15)]"

text \<open>\<open>update_weights\<close> (lines 32-38) on the \<open>current_weights\<close> attribute: merge, then
  divide by the total when the total is positive.\<close>

definition update_weights :: "(string \<times> real) list \<Rightarrow> (string \<times> real) list \<Rightarrow> (string \<times> real) list" where
  "update_weights current_weights new_weights =
     (let merged = dict_update current_weights new_weights;
          total = sum_list (map snd merged)
      in if total > 0 then map (\<lambda>kv. (fst kv, snd kv / total)) merged else merged)"

subsection \<open>Result frames of the agents\<close>

text \<open>
  An agent returns a \<open>pandas.DataFrame\<close> with one row per finding. The aggregation reads the
  columns \<open>pharmacy_number\<close>, \<open>fraud_score\<close>, \<open>reason\<close> and, from the coverage agent,
  \<open>pharmacy_name\<close>, \<open>pharmacy_city\<close> and \<open>pharmacy_state\<close>; a row carries these six
  values and the frame says which columns exist. Reading a column that does not exist
  raises \<open>KeyError\<close>.
\<close>

record finding =
  pharmacy_number :: string
  fraud_score :: real
  reason :: string
  pharmacy_name :: string
  pharmacy_city :: string
  pharmacy_state :: string

record frame =
  columns :: "string list"
  rows :: "finding list"


text \<open>\<open>results_df.empty\<close>: an axis of length 0.\<close>

definition frame_empty :: "frame \<Rightarrow> bool" where
  "frame_empty results_df \<longleftrightarrow> rows results_df = [] \<or> columns results_df = []"

definition has_column :: "string \<Rightarrow> frame \<Rightarrow> bool" where
  "has_column c results_df \<longleftrightarrow> c \<in> set (columns results_df)"

subsection \<open>numpy and builtin helpers\<close>

definition np_mean :: "real list \<Rightarrow> real" where
  "np_mean xs = sum_list xs / real (length xs)"

text \<open>\<open>np.std\<close> is the population standard deviation. Scores are real numbers here, so
  the deviation of several identical scores is exactly 0, which the computation in doubles
  need not give; the properties of the outlier score are stated so that they do not rest
  on this.\<close>

definition np_std :: "real list \<Rightarrow> real" where
  "np_std xs = sqrt (np_mean (map (\<lambda>x. (x - np_mean xs)\<^sup>2) xs))"

definition round_half_even :: "real \<Rightarrow> int" where
  "round_half_even x =
     (let f = \<lfloor>x\<rfloor>; d = x - of_int f
      in if d < 1 / 2 then f else if d > 1 / 2 then f + 1
         else if even f then f else f + 1)"

text \<open>\<open>round(x, ndigits)\<close>.\<close>

definition py_round :: "real \<Rightarrow> nat \<Rightarrow> real" where
  "py_round x ndigits = of_int (round_half_even (x * 10 ^ ndigits)) / 10 ^ ndigits"

text \<open>\<open>series.unique()\<close>: the values in order of first appearance.\<close>

definition unique :: "'a list \<Rightarrow> 'a list" where
  "unique xs = rev (remdups (rev xs))"

subsection \<open>Outlier score\<close>

text \<open>The first loop of \<open>_calculate_outlier_score\<close> (lines 203-207): every score of every
  non-empty frame that has a \<open>fraud_score\<close> column.\<close>

definition pooled_scores :: "(string \<times> frame) list \<Rightarrow> real list" where
  "pooled_scores agent_results =
     concat (map (\<lambda>(agent_name, results_df).
        if \<not> frame_empty results_df \<and> has_column ''fraud_score'' results_df
        then map fraud_score (rows results_df) else []) agent_results)"

text \<open>The second loop (lines 219-224): the score of the first row of each agent for this
  pharmacy.\<close>

fun outlier_pharmacy_scores :: "string \<Rightarrow> (string \<times> frame) list \<Rightarrow> py_error + real list" where
  "outlier_pharmacy_scores pharmacy [] = Inr []"
| "outlier_pharmacy_scores pharmacy ((agent_name, results_df) # rest) =
     (if \<not> frame_empty results_df \<and> has_column ''pharmacy_number'' results_df then
        (case filter (\<lambda>r. pharmacy_number r = pharmacy) (rows results_df) of
           [] \<Rightarrow> outlier_pharmacy_scores pharmacy rest
         | r # _ \<Rightarrow>
             if \<not> has_column ''fraud_score'' results_df then Inl (KeyError ''fraud_score'')
             else (case outlier_pharmacy_scores pharmacy rest of
                     Inl e \<Rightarrow> Inl e
                   | Inr pharmacy_scores \<Rightarrow> Inr (fraud_score r # pharmacy_scores)))
      else outlier_pharmacy_scores pharmacy rest)"

definition sigmoid :: "real \<Rightarrow> real" where
  "sigmoid z = 1 / (1 + exp (- z))"

text \<open>\<open>_calculate_outlier_score\<close> (lines 201-234).\<close>

definition calculate_outlier_score :: "string \<Rightarrow> (string \<times> frame) list \<Rightarrow> py_error + real" where
  "calculate_outlier_score pharmacy agent_results =
     (let all_scores = pooled_scores agent_results in
      if all_scores = [] then Inr 0.5
      else
        let mean_score = np_mean all_scores;
            std_score = np_std all_scores
        in if std_score = 0 then Inr 0.5
           else (case outlier_pharmacy_scores pharmacy agent_results of
                   Inl e \<Rightarrow> Inl e
                 | Inr pharmacy_scores \<Rightarrow>
                     if pharmacy_scores = [] then Inr 0.5
                     else
                       let avg_pharmacy_score = np_mean pharmacy_scores;
                           z_score = (avg_pharmacy_score - mean_score) / std_score
                       in Inr (sigmoid z_score)))"

subsection \<open>The raw dataset and string formatting\<close>

text \<open>The claim rows of the dataset, with the columns the aggregation reads.\<close>

record txn =
  txn_pharmacy_number :: string
  coverage_type :: string
  copay_cost :: real
  oop_cost :: real

record dataset =
  df_columns :: "string list"
  df_rows :: "txn list"

definition dataset_empty :: "dataset \<Rightarrow> bool" where
  "dataset_empty df \<longleftrightarrow> df_rows df = [] \<or> df_columns df = []"

text \<open>\<open>_get_pharmacy_transactions\<close> (lines 236-241).\<close>

definition get_pharmacy_transactions :: "string \<Rightarrow> dataset \<Rightarrow> dataset" where
  "get_pharmacy_transactions pharmacy df =
     (if ''pharmacy_number'' \<in> set (df_columns df)
      then df\<lparr>df_rows := filter (\<lambda>t. txn_pharmacy_number t = pharmacy) (df_rows df)\<rparr>
      else \<lparr>df_columns = [], df_rows = []\<rparr>)"

definition digit_char :: "nat \<Rightarrow> char" where
  "digit_char d = ''0123456789'' ! d"

text \<open>\<open>str(n)\<close> of a natural number.\<close>

function show_nat :: "nat \<Rightarrow> string" where
  "show_nat n = (if n < 10 then [digit_char n] else show_nat (n div 10) @ [digit_char (n mod 10)])"
  by pat_completeness auto
termination
  by (relation "measure id") auto

declare show_nat.simps [simp del]

text \<open>The format \<open>{x:.1f}\<close>.\<close>

definition format_1f :: "real \<Rightarrow> string" where
  "format_1f x =
     (let n = nat (round_half_even (\<bar>x\<bar> * 10))
      in (if x < 0 then ''-'' else []) @ show_nat (n div 10) @ ''.'' @ show_nat (n mod 10))"

text \<open>\<open>sep.join(xs)\<close>.\<close>

fun py_join :: "string \<Rightarrow> string list \<Rightarrow> string" where
  "py_join sep [] = []"
| "py_join sep [x] = x"
| "py_join sep (x # y # ys) = x @ sep @ py_join sep (y # ys)"

subsection \<open>Explanation\<close>

text \<open>The transaction part of \<open>_generate_fraud_explanation\<close> (lines 259-275). The three
  columns are read in the order \<open>coverage_type\<close>, \<open>copay_cost\<close>, \<open>oop_cost\<close>. The leading
  bytes of the clause are the UTF-8 encoding of the bar-chart sign.\<close>

definition transaction_part :: "dataset \<Rightarrow> py_error + string list" where
  "transaction_part transactions =
     (if \<not> dataset_empty transactions then
        if ''coverage_type'' \<notin> set (df_columns transactions) then Inl (KeyError ''coverage_type'')
        else if ''copay_cost'' \<notin> set (df_columns transactions) then Inl (KeyError ''copay_cost'')
        else if ''oop_cost'' \<notin> set (df_columns transactions) then Inl (KeyError ''oop_cost'')
        else
          let total_claims = length (df_rows transactions);
              cash_claims = length (filter (\<lambda>t. coverage_type t \<in> set [''Cash'', ''Not Covered''])
                                      (df_rows transactions));
              high_dollar_claims = length (filter (\<lambda>t. copay_cost t > 200 \<or> oop_cost t > 500)
                                             (df_rows transactions));
              transaction_insights =
                (if cash_claims > 0
                 then [format_1f (real cash_claims / real total_claims * 100)
                         @ ''% cash/not covered claims'']
                 else []) @
                (if high_dollar_claims > 0
                 then [format_1f (real high_dollar_claims / real total_claims * 100)
                         @ ''% high-dollar claims'']
                 else [])
          in if transaction_insights \<noteq> []
             then Inr [[CHR 0xF0, CHR 0x9F, CHR 0x93, CHR 0x8A] @ '' Transaction Analysis: ''
                         @ py_join '', '' transaction_insights]
             else Inr []
      else Inr [])"

text \<open>\<open>_generate_fraud_explanation\<close> (lines 243-280).\<close>

definition generate_fraud_explanation ::
  "(string \<times> real) list \<Rightarrow> (string \<times> string) list \<Rightarrow> dataset \<Rightarrow> py_error + string" where
  "generate_fraud_explanation scores reasons transactions =
     (let high_risk_agents = map fst (filter (\<lambda>(agent, score). score \<ge> 0.8) scores);
          medium_risk_agents = map fst (filter (\<lambda>(agent, score). 0.6 \<le> score \<and> score < 0.8) scores);
          high_part =
            (if high_risk_agents \<noteq> []
             then [[CHR 0xF0, CHR 0x9F, CHR 0x9A, CHR 0xA8] @ '' HIGH RISK from ''
                     @ show_nat (length high_risk_agents) @ '' agents: ''
                     @ py_join '', '' (map (\<lambda>agent. dict_get reasons agent ''High risk'') high_risk_agents)]
             else []);
          medium_part =
            (if medium_risk_agents \<noteq> []
             then [[CHR 0xE2, CHR 0x9A, CHR 0xA0, CHR 0xEF, CHR 0xB8, CHR 0x8F] @ '' MEDIUM RISK from ''
                     @ show_nat (length medium_risk_agents) @ '' agents: ''
                     @ py_join '', '' (map (\<lambda>agent. dict_get reasons agent ''Medium risk'') medium_risk_agents)]
             else [])
      in case transaction_part transactions of
           Inl e \<Rightarrow> Inl e
         | Inr transaction_clause \<Rightarrow>
             let explanation_parts = high_part @ medium_part @ transaction_clause
             in Inr (py_join '' | ''
                  (if explanation_parts = []
                   then [''Multiple agent analysis completed - no significant fraud indicators detected'']
                   else explanation_parts)))"

subsection \<open>Consistency score and risk level\<close>

text \<open>\<open>_calculate_consistency_score\<close> (lines 183-199); the argument is the dict
  \<open>pharmacy_scores\<close>, a list comprehension is a \<^const>\<open>filter\<close> and a list is true when
  it is not empty.\<close>

definition calculate_consistency_score :: "(string \<times> real) list \<Rightarrow> real" where
  "calculate_consistency_score pharmacy_scores =
     (if length pharmacy_scores < 2 then 0.5
      else
        let high_scores = filter (\<lambda>s. s \<ge> 0.8) (map snd pharmacy_scores);
            low_scores = filter (\<lambda>s. s < 0.4) (map snd pharmacy_scores)
        in if high_scores \<noteq> [] \<and> low_scores \<noteq> [] then 0.3
           else if high_scores \<noteq> [] then 0.9
           else if low_scores \<noteq> [] then 0.1
           else 0.5)"

text \<open>\<open>_determine_risk_level\<close> (lines 282-291).\<close>

definition determine_risk_level :: "real \<Rightarrow> string" where
  "determine_risk_level score =
     (if score \<ge> 0.8 then ''HIGH RISK''
      else if score \<ge> 0.6 then ''MEDIUM RISK''
      else if score \<ge> 0.4 then ''LOW RISK''
      else ''VERY LOW RISK'')"

subsection \<open>The run tracker\<close>

text \<open>
  \<open>langsmith_tracker\<close> (utils/langsmith\_integration.py) is a global object that records
  child runs in a run tree. Each of its methods catches every exception of its own body
  and returns nothing that the scoring reads. Its state is the list of the names of the
  child runs of the current tree, or \<open>None\<close> when no tree has been started.
\<close>

type_synonym tracker = "string list option"

definition start_project_run :: "tracker \<Rightarrow> tracker" where
  "start_project_run trk = Some []"

definition create_child :: "string \<Rightarrow> tracker \<Rightarrow> tracker" where
  "create_child name trk =
     (case (if trk = None then start_project_run trk else trk) of
        None \<Rightarrow> None
      | Some children \<Rightarrow> Some (children @ [name]))"


definition track_cross_agent_communication :: "tracker \<Rightarrow> tracker" where
  "track_cross_agent_communication = create_child ''cross-agent-communication''"

definition track_weighted_scoring :: "tracker \<Rightarrow> tracker" where
  "track_weighted_scoring = create_child ''weighted-scoring''"


subsection \<open>Scoring one pharmacy\<close>

text \<open>A row of the weighted results: the dict returned at lines 167-181, and the \<open>rank\<close>
  column that the final stage of the pipeline adds (\<open>None\<close> before that).\<close>

record scored =
  res_pharmacy_number :: string
  res_pharmacy_name :: string
  res_pharmacy_city :: string
  res_pharmacy_state :: string
  weighted_score :: real
  contributing_agents :: "string list"
  agent_scores :: "(string \<times> real) list"
  agent_reasons :: "(string \<times> string) list"
  consistency_score :: real
  outlier_score :: real
  fraud_explanation :: string
  transaction_count :: nat
  risk_level :: string
  rank :: "nat option"

datatype py_value =
    PyStr string | PyFloat real | PyInt int | PyStrList "string list"
  | PyScoreDict "(string \<times> real) list" | PyReasonDict "(string \<times> string) list"

text \<open>The row as the dict of column name and value, in the order of the dict literal.\<close>

definition to_dict :: "scored \<Rightarrow> (string \<times> py_value) list" where
  "to_dict r =
     [(''pharmacy_number'', PyStr (res_pharmacy_number r)),
      (''pharmacy_name'', PyStr (res_pharmacy_name r)),
      (''pharmacy_city'', PyStr (res_pharmacy_city r)),
      (''pharmacy_state'', PyStr (res_pharmacy_state r)),
      (''weighted_score'', PyFloat (weighted_score r)),
      (''contributing_agents'', PyStrList (contributing_agents r)),
      (''agent_scores'', PyScoreDict (agent_scores r)),
      (''agent_reasons'', PyReasonDict (agent_reasons r)),
      (''consistency_score'', PyFloat (consistency_score r)),
      (''outlier_score'', PyFloat (outlier_score r)),
      (''fraud_explanation'', PyStr (fraud_explanation r)),
      (''transaction_count'', PyInt (int (transaction_count r))),
      (''risk_level'', PyStr (risk_level r))]
     @ (case rank r of None \<Rightarrow> [] | Some k \<Rightarrow> [(''rank'', PyInt (int k))])"

definition column_names :: "scored \<Rightarrow> string list" where
  "column_names r = map fst (to_dict r)"

text \<open>The loop of lines 127-133. For each agent that reports the pharmacy it yields the
  agent's name, the columns of its frame and the first row for the pharmacy; from these
  come \<open>pharmacy_scores\<close>, \<open>pharmacy_reasons\<close> and \<open>pharmacy_details\<close>. The keys of
  \<open>agent_results\<close> are distinct, so each assignment adds a new key.\<close>

fun collect_pharmacy ::
  "string \<Rightarrow> (string \<times> frame) list \<Rightarrow> py_error + (string \<times> string list \<times> finding) list" where
  "collect_pharmacy pharmacy [] = Inr []"
| "collect_pharmacy pharmacy ((agent_name, results_df) # rest) =
     (if \<not> frame_empty results_df \<and> has_column ''pharmacy_number'' results_df then
        (case filter (\<lambda>r. pharmacy_number r = pharmacy) (rows results_df) of
           [] \<Rightarrow> collect_pharmacy pharmacy rest
         | r # _ \<Rightarrow>
             if \<not> has_column ''fraud_score'' results_df then Inl (KeyError ''fraud_score'')
             else if \<not> has_column ''reason'' results_df then Inl (KeyError ''reason'')
             else (case collect_pharmacy pharmacy rest of
                     Inl e \<Rightarrow> Inl e
                   | Inr found \<Rightarrow> Inr ((agent_name, columns results_df, r) # found)))
      else collect_pharmacy pharmacy rest)"

text \<open>\<open>pharmacy_details.get('coverage_agent', {}).get(col, 'Unknown')\<close>.\<close>

definition coverage_detail ::
  "(string \<times> string list \<times> finding) list \<Rightarrow> string \<Rightarrow> (finding \<Rightarrow> string) \<Rightarrow> string" where
  "coverage_detail found col field =
     (case map_of found ''coverage_agent'' of
        None \<Rightarrow> ''Unknown''
      | Some (cols, r) \<Rightarrow> if col \<in> set cols then field r else ''Unknown'')"

text \<open>The loop of lines 136-142.\<close>

definition weighted_sum :: "(string \<times> real) list \<Rightarrow> (string \<times> real) list \<Rightarrow> real" where
  "weighted_sum current_weights pharmacy_scores =
     foldl (\<lambda>weighted_score (agent_name, score).
              weighted_score + score * dict_get current_weights agent_name 0.0)
       0.0 pharmacy_scores"

definition final_score_of :: "real \<Rightarrow> real \<Rightarrow> real \<Rightarrow> real" where
  "final_score_of weighted consistency outlier =
     (weighted * 0.7) + (consistency * 0.2) + (outlier * 0.1)"

text \<open>\<open>_calculate_single_pharmacy_score\<close> (lines 120-181). It returns the row, or the
  exception that escapes, and the tracker as it leaves it.\<close>

definition calculate_single_pharmacy_score ::
  "(string \<times> real) list \<Rightarrow> tracker \<Rightarrow> string \<Rightarrow> (string \<times> frame) list \<Rightarrow> dataset
     \<Rightarrow> (py_error + scored) \<times> tracker" where
  "calculate_single_pharmacy_score current_weights trk pharmacy agent_results df =
     (case collect_pharmacy pharmacy agent_results of
        Inl e \<Rightarrow> (Inl e, trk)
      | Inr found \<Rightarrow>
          let pharmacy_scores = map (\<lambda>(agent_name, cols, r). (agent_name, fraud_score r)) found;
              pharmacy_reasons = map (\<lambda>(agent_name, cols, r). (agent_name, reason r)) found;
              weighted = weighted_sum current_weights pharmacy_scores;
              contributing = map fst pharmacy_scores;
              consistency = calculate_consistency_score pharmacy_scores
          in case calculate_outlier_score pharmacy agent_results of
               Inl e \<Rightarrow> (Inl e, trk)
             | Inr outlier \<Rightarrow>
                 let trk' = track_cross_agent_communication trk;
                     final_score = final_score_of weighted consistency outlier;
                     pharmacy_transactions = get_pharmacy_transactions pharmacy df
                 in case generate_fraud_explanation pharmacy_scores pharmacy_reasons
                           pharmacy_transactions of
                      Inl e \<Rightarrow> (Inl e, trk')
                    | Inr explanation \<Rightarrow>
                        (Inr \<lparr>res_pharmacy_number = pharmacy,
                              res_pharmacy_name = coverage_detail found ''pharmacy_name'' pharmacy_name,
                              res_pharmacy_city = coverage_detail found ''pharmacy_city'' pharmacy_city,
                              res_pharmacy_state = coverage_detail found ''pharmacy_state'' pharmacy_state,
                              weighted_score = py_round final_score 3,
                              contributing_agents = contributing,
                              agent_scores = pharmacy_scores,
                              agent_reasons = pharmacy_reasons,
                              consistency_score = py_round consistency 3,
                              outlier_score = py_round outlier 3,
                              fraud_explanation = explanation,
                              transaction_count = length (df_rows pharmacy_transactions),
                              risk_level = determine_risk_level final_score,
                              rank = None\<rparr>,
                         trk'))"

subsection \<open>Scoring all pharmacies\<close>

text \<open>The values added to the set \<open>all_pharmacies\<close>, in the order of insertion
  (lines 96-99).\<close>

definition pharmacy_insertions :: "(string \<times> frame) list \<Rightarrow> string list" where
  "pharmacy_insertions agent_results =
     concat (map (\<lambda>(agent_name, results_df).
        if \<not> frame_empty results_df \<and> has_column ''pharmacy_number'' results_df
        then unique (map pharmacy_number (rows results_df)) else []) agent_results)"

text \<open>The loop of lines 103-107; an exception ends it.\<close>

fun score_pharmacies ::
  "(string \<times> real) list \<Rightarrow> tracker \<Rightarrow> string list \<Rightarrow> (string \<times> frame) list \<Rightarrow> dataset
     \<Rightarrow> (py_error + scored list) \<times> tracker" where
  "score_pharmacies current_weights trk [] agent_results df = (Inr [], trk)"
| "score_pharmacies current_weights trk (pharmacy # todo) agent_results df =
     (case calculate_single_pharmacy_score current_weights trk pharmacy agent_results df of
        (Inl e, trk') \<Rightarrow> (Inl e, trk')
      | (Inr pharmacy_result, trk') \<Rightarrow>
          (case score_pharmacies current_weights trk' todo agent_results df of
             (Inl e, trk'') \<Rightarrow> (Inl e, trk'')
           | (Inr weighted_results, trk'') \<Rightarrow> (Inr (pharmacy_result # weighted_results), trk'')))"

text \<open>
  \<open>calculate_weighted_scores\<close> (lines 91-118). Python does not fix the order in which a
  set yields its elements: \<open>set_iteration\<close> is that order, as a function of the sequence of
  insertions. The result is the list of rows of the frame \<open>weighted_df\<close>; the empty list is
  the frame without columns that \<open>pd.DataFrame([])\<close> builds.
\<close>

definition calculate_weighted_scores ::
  "(string list \<Rightarrow> string list) \<Rightarrow> (string \<times> real) list \<Rightarrow> tracker
     \<Rightarrow> (string \<times> frame) list \<Rightarrow> dataset \<Rightarrow> (py_error + scored list) \<times> tracker" where
  "calculate_weighted_scores set_iteration current_weights trk agent_results df =
     (let all_pharmacies = set_iteration (pharmacy_insertions agent_results)
      in case score_pharmacies current_weights trk all_pharmacies agent_results df of
           (Inl e, trk') \<Rightarrow> (Inl e, trk')
         | (Inr weighted_results, trk') \<Rightarrow> (Inr weighted_results, track_weighted_scoring trk'))"

text \<open>The row of one pharmacy, or the exception that scoring it raises: the first component
  of \<open>_calculate_single_pharmacy_score\<close>.\<close>

definition pharmacy_row ::
  "(string \<times> real) list \<Rightarrow> string \<Rightarrow> (string \<times> frame) list \<Rightarrow> dataset \<Rightarrow> py_error + scored" where
  "pharmacy_row w p ar df = fst (calculate_single_pharmacy_score w None p ar df)"

text \<open>What a set must do when it is iterated: yield each of its elements once.\<close>

definition set_iteration_ok :: "(string list \<Rightarrow> string list) \<Rightarrow> bool" where
  "set_iteration_ok set_iteration \<longleftrightarrow>
     (\<forall>xs. distinct (set_iteration xs) \<and> set (set_iteration xs) = set xs)"

text \<open>Two orders that meet this are \<^const>\<open>remdups\<close> and its reverse.\<close>

definition reversed_iteration :: "string list \<Rightarrow> string list" where
  "reversed_iteration xs = rev (remdups xs)"

subsection \<open>Running the agents\<close>

text \<open>
  An agent is an object with a method \<open>run\<close>, called with the dataset and, for the network
  agent, with a second frame. It returns a frame or raises.
\<close>

type_synonym agent = "dataset \<Rightarrow> frame option \<Rightarrow> py_error + frame"





subsection \<open>SupervisorAgent\<close>

record agent_perf =
  avg_score :: real
  high_risk_findings :: nat
  total_findings :: nat

record patterns =
  conflicting_signals_count :: nat
  high_consistency_count :: nat
  double_penalty_instances :: nat

record insights =
  total_pharmacies_analyzed :: nat
  high_risk_pharmacies :: nat
  medium_risk_pharmacies :: nat
  agent_performance :: "(string \<times> agent_perf) list"
  cross_agent_patterns :: patterns
  recommendations :: "string list"







section \<open>The pipeline (langgraph/parallel\_fraud\_graph.py)\<close>

text \<open>
  The state of the graph. A frame of weighted results is the list of its rows, the empty
  list being \<open>pd.DataFrame()\<close>; the insights are \<open>None\<close> for the empty dict.
\<close>

record state =
  st_df :: dataset
  st_agent_results :: "(string \<times> frame) list"
  st_weighted_results :: "scored list"
  st_supervisor_insights :: "insights option"
  st_final_results :: "scored list"


text \<open>\<open>final_results['rank'] = range(1, len(final_results) + 1)\<close>.\<close>

definition assign_rank :: "scored list \<Rightarrow> scored list" where
  "assign_rank final_results =
     map (\<lambda>(row, k). row\<lparr>rank := Some k\<rparr>) (zip final_results [1 ..< length final_results + 1])"

text \<open>
  \<open>final_results_node\<close> (lines 67-97). \<open>sort_values\<close> is the call
  \<open>sort_values('weighted_score', ascending=False)\<close> of pandas, whose default algorithm
  (quicksort) does not fix the order of rows with equal keys; it is a parameter here.
\<close>

definition final_results_node :: "(scored list \<Rightarrow> scored list) \<Rightarrow> state \<Rightarrow> state" where
  "final_results_node sort_values st =
     (let weighted_results = st_weighted_results st
      in if weighted_results = [] then st\<lparr>st_final_results := []\<rparr>
         else
           let final_results = assign_rank (sort_values weighted_results);
               weighted_results_with_rank = assign_rank (sort_values weighted_results)
           in st\<lparr>st_weighted_results := weighted_results_with_rank,
                 st_final_results := final_results\<rparr>)"

text \<open>What \<open>sort_values\<close> must do: rearrange the rows so that the keys descend.\<close>

definition sort_values_ok :: "(scored list \<Rightarrow> scored list) \<Rightarrow> bool" where
  "sort_values_ok sort_values \<longleftrightarrow>
     (\<forall>xs. mset (sort_values xs) = mset xs \<and>
           sorted_wrt (\<lambda>a b. weighted_score a \<ge> weighted_score b) (sort_values xs))"

text \<open>A sort that meets this: the stable sort of the library, reversed.\<close>

definition stable_sort_desc :: "scored list \<Rightarrow> scored list" where
  "stable_sort_desc xs = rev (sort_key weighted_score (rev xs))"


section \<open>The contract of the inputs\<close>

text \<open>
  A finding names a pharmacy, a score and a reason: a frame that is not empty has the
  columns \<open>pharmacy_number\<close>, \<open>fraud_score\<close> and \<open>reason\<close>.
\<close>

definition frame_ok :: "frame \<Rightarrow> bool" where
  "frame_ok results_df \<longleftrightarrow>
     (\<not> frame_empty results_df \<longrightarrow>
        has_column ''pharmacy_number'' results_df \<and> has_column ''fraud_score'' results_df \<and>
        has_column ''reason'' results_df)"

definition frames_ok :: "(string \<times> frame) list \<Rightarrow> bool" where
  "frames_ok agent_results \<longleftrightarrow> list_all (\<lambda>(agent_name, results_df). frame_ok results_df) agent_results"

text \<open>A dataset that has the column \<open>pharmacy_number\<close> has the three columns that the
  explanation reads.\<close>

definition dataset_ok :: "dataset \<Rightarrow> bool" where
  "dataset_ok df \<longleftrightarrow>
     (''pharmacy_number'' \<in> set (df_columns df) \<longrightarrow>
        ''coverage_type'' \<in> set (df_columns df) \<and> ''copay_cost'' \<in> set (df_columns df) \<and>
        ''oop_cost'' \<in> set (df_columns df))"

text \<open>An agent reports a pharmacy when its frame has a row for it; the finding that counts
  is the first such row.\<close>

definition reports :: "string \<Rightarrow> frame \<Rightarrow> bool" where
  "reports pharmacy results_df \<longleftrightarrow>
     \<not> frame_empty results_df \<and> has_column ''pharmacy_number'' results_df \<and>
     pharmacy \<in> pharmacy_number ` set (rows results_df)"

definition first_finding :: "string \<Rightarrow> frame \<Rightarrow> finding" where
  "first_finding pharmacy results_df = hd (filter (\<lambda>r. pharmacy_number r = pharmacy) (rows results_df))"

definition reported_findings :: "string \<Rightarrow> (string \<times> frame) list \<Rightarrow> (string \<times> finding) list" where
  "reported_findings pharmacy agent_results =
     map (\<lambda>(agent_name, results_df). (agent_name, first_finding pharmacy results_df))
       (filter (\<lambda>(agent_name, results_df). reports pharmacy results_df) agent_results)"

definition reported_scores :: "string \<Rightarrow> (string \<times> frame) list \<Rightarrow> (string \<times> real) list" where
  "reported_scores pharmacy agent_results =
     map (\<lambda>(agent_name, r). (agent_name, fraud_score r)) (reported_findings pharmacy agent_results)"

section \<open>Example inputs\<close>

text \<open>One agent reporting one pharmacy with score 1.0, and one claim for that pharmacy.\<close>

definition one_unit_results :: "(string \<times> frame) list" where
  "one_unit_results =
     [(''coverage_agent'',
       \<lparr>columns = [''pharmacy_number'', ''pharmacy_name'', ''fraud_score'', ''reason''],
        rows = [\<lparr>pharmacy_number = ''PH001'', fraud_score = 1.0,
                 reason = ''HIGH_RISK: >90% flagged claims'',
                 pharmacy_name = ''Test Pharmacy 1'', pharmacy_city = '''',
                 pharmacy_state = ''''\<rparr>]\<rparr>)]"

definition one_claim_dataset :: dataset where
  "one_claim_dataset =
     \<lparr>df_columns = [''pharmacy_number'', ''coverage_type'', ''copay_cost'', ''oop_cost''],
      df_rows = [\<lparr>txn_pharmacy_number = ''PH001'', coverage_type = ''Cash'',
                  copay_cost = 300, oop_cost = 600\<rparr>]\<rparr>"

text \<open>One agent reporting two pharmacies with different scores.\<close>

definition two_pharmacy_results :: "(string \<times> frame) list" where
  "two_pharmacy_results =
     [(''coverage_agent'',
       \<lparr>columns = [''pharmacy_number'', ''fraud_score'', ''reason''],
        rows = [\<lparr>pharmacy_number = ''PH001'', fraud_score = 1,
                 reason = ''HIGH_RISK: >90% flagged claims'',
                 pharmacy_name = '''', pharmacy_city = '''', pharmacy_state = ''''\<rparr>,
                \<lparr>pharmacy_number = ''PH002'', fraud_score = 0, reason = ''Normal'',
                 pharmacy_name = '''', pharmacy_city = '''', pharmacy_state = ''''\<rparr>]\<rparr>)]"




text \<open>Three rows of weighted results with different scores, and a state that holds them.\<close>

definition blank_row :: scored where
  "blank_row =
     \<lparr>res_pharmacy_number = '''', res_pharmacy_name = ''Unknown'', res_pharmacy_city = ''Unknown'',
      res_pharmacy_state = ''Unknown'', weighted_score = 0, contributing_agents = [],
      agent_scores = [], agent_reasons = [], consistency_score = 0.5, outlier_score = 0.5,
      fraud_explanation = '''', transaction_count = 0, risk_level = ''VERY LOW RISK'',
      rank = None\<rparr>"

definition three_rows :: "scored list" where
  "three_rows =
     [blank_row\<lparr>res_pharmacy_number := ''PH001'', weighted_score := 0.325\<rparr>,
      blank_row\<lparr>res_pharmacy_number := ''PH002'', weighted_score := 0.8\<rparr>,
      blank_row\<lparr>res_pharmacy_number := ''PH003'', weighted_score := 0.61\<rparr>]"

definition example_state :: state where
  "example_state =
     \<lparr>st_df = one_claim_dataset, st_agent_results = [], st_weighted_results = three_rows,
      st_supervisor_insights = None, st_final_results = []\<rparr>"

text \<open>A sort that meets the contract of \<open>sort_values\<close> and turns rows with equal keys
  round, and a state whose two rows have the same score.\<close>

definition reverse_stable_sort :: "scored list \<Rightarrow> scored list" where
  "reverse_stable_sort xs = rev (sort_key weighted_score xs)"

definition tie_state :: state where
  "tie_state =
     \<lparr>st_df = one_claim_dataset, st_agent_results = [],
      st_weighted_results =
        [blank_row\<lparr>res_pharmacy_number := ''PH001'', weighted_score := 0.8\<rparr>,
         blank_row\<lparr>res_pharmacy_number := ''PH002'', weighted_score := 0.8\<rparr>],
      st_supervisor_insights = None, st_final_results = []\<rparr>"









section \<open>Properties\<close>

subsection \<open>Risk level\<close>

text \<open>
  C6. The risk level is a step function of the final score alone, with bands that include
  their lower bound: at least 0.8 is HIGH RISK, from 0.6 up to but excluding 0.8 is MEDIUM
  RISK, from 0.4 up to but excluding 0.6 is LOW RISK, and below 0.4 is VERY LOW RISK.
\<close>

theorem risk_level_bands:
  "(determine_risk_level s = ''HIGH RISK'' \<longleftrightarrow> 0.8 \<le> s) \<and>
   (determine_risk_level s = ''MEDIUM RISK'' \<longleftrightarrow> 0.6 \<le> s \<and> s < 0.8) \<and>
   (determine_risk_level s = ''LOW RISK'' \<longleftrightarrow> 0.4 \<le> s \<and> s < 0.6) \<and>
   (determine_risk_level s = ''VERY LOW RISK'' \<longleftrightarrow> s < 0.4)"
  by (simp add: determine_risk_level_def)

theorem risk_level_bands_witness:
  "determine_risk_level 0.8 = ''HIGH RISK'' \<and> determine_risk_level 0.6 = ''MEDIUM RISK'' \<and>
   determine_risk_level 0.4 = ''LOW RISK'' \<and> determine_risk_level 0.39 = ''VERY LOW RISK''"
  using risk_level_bands [of "0.8"] risk_level_bands [of "0.6"]
    risk_level_bands [of "0.4"] risk_level_bands [of "0.39"]
  by simp

subsection \<open>What the loops compute on well-formed inputs\<close>

lemma collect_pharmacy_ok:
  "frames_ok ar \<Longrightarrow>
   collect_pharmacy p ar =
     Inr (map (\<lambda>(a, f). (a, columns f, first_finding p f)) (filter (\<lambda>(a, f). reports p f) ar))"
proof (induction ar)
  case Nil
  show ?case by simp
next
  case (Cons af ar)
  obtain a f where af: "af = (a, f)" by (cases af)
  from Cons.prems have ok: "frame_ok f" and rest: "frames_ok ar"
    by (simp_all add: frames_ok_def af)
  note IH = Cons.IH [OF rest]
  show ?case
  proof (cases "reports p f")
    case True
    then obtain r rs where fr: "filter (\<lambda>r. pharmacy_number r = p) (rows f) = r # rs"
      by (cases "filter (\<lambda>r. pharmacy_number r = p) (rows f)")
         (auto simp add: reports_def filter_empty_conv)
    from True ok have cols: "has_column ''fraud_score'' f" "has_column ''reason'' f"
      "\<not> frame_empty f" "has_column ''pharmacy_number'' f"
      by (auto simp add: reports_def frame_ok_def)
    show ?thesis
      using True fr cols IH by (simp add: af first_finding_def)
  next
    case False
    then have "frame_empty f \<or> \<not> has_column ''pharmacy_number'' f \<or>
        filter (\<lambda>r. pharmacy_number r = p) (rows f) = []"
      by (auto simp add: reports_def filter_empty_conv)
    then show ?thesis
      using False IH by (auto simp add: af)
  qed
qed

lemma outlier_pharmacy_scores_ok:
  "frames_ok ar \<Longrightarrow>
   outlier_pharmacy_scores p ar = Inr (map snd (reported_scores p ar))"
proof (induction ar)
  case Nil
  show ?case by (simp add: reported_scores_def reported_findings_def)
next
  case (Cons af ar)
  obtain a f where af: "af = (a, f)" by (cases af)
  from Cons.prems have ok: "frame_ok f" and rest: "frames_ok ar"
    by (simp_all add: frames_ok_def af)
  note IH = Cons.IH [OF rest]
  show ?case
  proof (cases "reports p f")
    case True
    then obtain r rs where fr: "filter (\<lambda>r. pharmacy_number r = p) (rows f) = r # rs"
      by (cases "filter (\<lambda>r. pharmacy_number r = p) (rows f)")
         (auto simp add: reports_def filter_empty_conv)
    from True ok have cols: "has_column ''fraud_score'' f" 
      "\<not> frame_empty f" "has_column ''pharmacy_number'' f"
      by (auto simp add: reports_def frame_ok_def)
    show ?thesis
      using True fr cols IH by (simp add: af first_finding_def reported_scores_def reported_findings_def)
  next
    case False
    then have "frame_empty f \<or> \<not> has_column ''pharmacy_number'' f \<or>
        filter (\<lambda>r. pharmacy_number r = p) (rows f) = []"
      by (auto simp add: reports_def filter_empty_conv)
    then show ?thesis
      using False IH by (auto simp add: af reported_scores_def reported_findings_def)
  qed
qed

lemma foldl_weighted:
  "foldl (\<lambda>acc (a, s). acc + s * dict_get w a 0) acc0 ps =
     acc0 + sum_list (map (\<lambda>(a, s). s * dict_get w a (0::real)) ps)"
  by (induction ps arbitrary: acc0) (auto simp add: algebra_simps)

lemma weighted_sum_eq:
  "weighted_sum w ps = (\<Sum>(a, s) \<leftarrow> ps. s * dict_get w a 0)"
  by (simp add: weighted_sum_def foldl_weighted)

lemma sigmoid_bounds: "0 < sigmoid z \<and> sigmoid z < 1"
proof -
  have "0 < exp (- z)" by simp
  then show ?thesis by (simp add: sigmoid_def add_pos_pos)
qed


lemma transaction_part_ok:
  "dataset_ok df \<Longrightarrow> \<exists>c. transaction_part (get_pharmacy_transactions p df) = Inr c"
  by (auto simp add: transaction_part_def get_pharmacy_transactions_def dataset_ok_def dataset_empty_def Let_def)

lemma explanation_ok:
  "dataset_ok df \<Longrightarrow> \<exists>e. generate_fraud_explanation sc rs (get_pharmacy_transactions p df) = Inr e"
  using transaction_part_ok [of df p]
  by (auto simp add: generate_fraud_explanation_def Let_def)

subsection \<open>Weight updates\<close>

lemma map_of_dict_update:
  "map_of (dict_update d new) = map_of d ++ map_of (rev new)"
  unfolding dict_update_def
proof (induction new arbitrary: d)
  case Nil
  show ?case by simp
next
  case (Cons kv new)
  show ?case
    by (auto simp add: Cons.IH update_conv' map_add_def fun_eq_iff split: option.splits)
qed

lemma sum_list_scaled:
  "sum_list (map (\<lambda>kv. snd kv / (c::real)) xs) = sum_list (map snd xs) / c"
  by (induction xs) (simp_all add: add_divide_distrib)

text \<open>
  C3 (as amended). An update merges the overrides into the existing vector (a later
  override of a key wins). If the merged weights have a positive sum, the updated weights
  have the same keys and sum to 1. If the sum is not positive, the updated vector is the
  merged vector, not normalised: the overrides stay applied.
\<close>

theorem update_weights_normalised:
  "(0 < sum_list (map snd (dict_update cw new)) \<longrightarrow>
      sum_list (map snd (update_weights cw new)) = 1 \<and>
      map fst (update_weights cw new) = map fst (dict_update cw new)) \<and>
   (\<not> 0 < sum_list (map snd (dict_update cw new)) \<longrightarrow>
      update_weights cw new = dict_update cw new) \<and>
   map_of (dict_update cw new) = map_of cw ++ map_of (rev new)"
  by (simp add: update_weights_def Let_def sum_list_scaled o_def map_of_dict_update)

theorem update_weights_normalised_witness:
  "0 < sum_list (map snd (dict_update default_weights [(''coverage_agent'', 0.3), (''extra_agent'', 0.7)])) \<and>
   sum_list (map snd (update_weights default_weights [(''coverage_agent'', 0.3), (''extra_agent'', 0.7)])) = 1 \<and>
   \<not> 0 < sum_list (map snd (dict_update [(''coverage_agent'', 0.25::real)] [(''coverage_agent'', 0)])) \<and>
   update_weights [(''coverage_agent'', 0.25)] [(''coverage_agent'', 0)] =
     dict_update [(''coverage_agent'', 0.25)] [(''coverage_agent'', 0)]"
proof -
  have pos: "0 < sum_list (map snd (dict_update default_weights
      [(''coverage_agent'', 0.3), (''extra_agent'', 0.7)]))"
    by (simp add: dict_update_def default_weights_def)
  have zero: "\<not> 0 < sum_list (map snd (dict_update [(''coverage_agent'', 0.25::real)]
      [(''coverage_agent'', 0)]))"
    by (simp add: dict_update_def)
  show ?thesis
    using pos zero
      update_weights_normalised [of default_weights "[(''coverage_agent'', 0.3), (''extra_agent'', 0.7)]"]
      update_weights_normalised [of "[(''coverage_agent'', 0.25)]" "[(''coverage_agent'', 0)]"]
    by blast
qed

text \<open>
  The claim as first stated fails: overriding every default weight with 0 gives merged
  weights that sum to 0, and the vector after the update is the all-zero vector, not the
  vector before the update.
\<close>

theorem update_weights_zero_counterexample:
  "sum_list (map snd (dict_update default_weights
      [(''coverage_agent'', 0), (''patient_flip_agent'', 0), (''high_dollar_agent'', 0),
       (''rejection_agent'', 0), (''network_agent'', 0)])) = 0 \<and>
   update_weights default_weights
      [(''coverage_agent'', 0), (''patient_flip_agent'', 0), (''high_dollar_agent'', 0),
       (''rejection_agent'', 0), (''network_agent'', 0)] \<noteq> default_weights"
  by (simp add: update_weights_def dict_update_def default_weights_def)

subsection \<open>Consistency score\<close>

text \<open>
  C4. With fewer than two contributing agents the consistency score is 0.5; otherwise it
  is 0.3 when some score is at least 0.8 and some score is below 0.4, else 0.9 when some
  score is at least 0.8, else 0.1 when some score is below 0.4, else 0.5. It is always one
  of 0.1, 0.3, 0.5 and 0.9.
\<close>

theorem consistency_score_cases:
  "calculate_consistency_score ps =
     (if length ps < 2 then 0.5
      else if (\<exists>s \<in> snd ` set ps. s \<ge> 0.8) \<and> (\<exists>s \<in> snd ` set ps. s < 0.4) then 0.3
      else if (\<exists>s \<in> snd ` set ps. s \<ge> 0.8) then 0.9
      else if (\<exists>s \<in> snd ` set ps. s < 0.4) then 0.1
      else 0.5) \<and>
   calculate_consistency_score ps \<in> {0.1, 0.3, 0.5, 0.9}"
  by (auto simp add: calculate_consistency_score_def Let_def filter_empty_conv)

theorem consistency_score_cases_witness:
  "calculate_consistency_score [(''coverage_agent'', 0.9), (''network_agent'', 0.2)] = 0.3 \<and>
   calculate_consistency_score [(''coverage_agent'', 0.9)] = 0.5"
proof -
  have a: "\<not> length [(''coverage_agent'', 0.9::real), (''network_agent'', 0.2)] < 2"
    by simp
  have b: "\<exists>s \<in> snd ` set [(''coverage_agent'', 0.9::real), (''network_agent'', 0.2)]. s \<ge> 0.8"
    by simp
  have c: "\<exists>s \<in> snd ` set [(''coverage_agent'', 0.9::real), (''network_agent'', 0.2)]. s < 0.4"
    by (rule bexI [where x = "0.2"]) simp_all
  have d: "length [(''coverage_agent'', 0.9::real)] < 2"
    by simp
  from a b c have "calculate_consistency_score [(''coverage_agent'', 0.9), (''network_agent'', 0.2)] = 0.3"
    using consistency_score_cases [of "[(''coverage_agent'', 0.9), (''network_agent'', 0.2)]"]
    by presburger
  moreover from d have "calculate_consistency_score [(''coverage_agent'', 0.9)] = 0.5"
    using consistency_score_cases [of "[(''coverage_agent'', 0.9)]"]
    by presburger
  ultimately show ?thesis
    by blast
qed

subsection \<open>Outlier score\<close>


lemma calculate_outlier_score_ok:
  assumes "frames_ok ar"
  shows "\<exists>x. calculate_outlier_score p ar = Inr x \<and> 0 < x \<and> x < 1"
proof -
  have "calculate_outlier_score p ar = Inr 0.5 \<or>
      (\<exists>z. calculate_outlier_score p ar = Inr (sigmoid z))"
    using outlier_pharmacy_scores_ok [OF assms, of p]
    by (auto simp add: calculate_outlier_score_def Let_def)
  then show ?thesis
  proof
    assume "calculate_outlier_score p ar = Inr 0.5"
    moreover have "(0::real) < 0.5 \<and> (0.5::real) < 1" by simp
    ultimately show ?thesis by blast
  next
    assume "\<exists>z. calculate_outlier_score p ar = Inr (sigmoid z)"
    then show ?thesis using sigmoid_bounds by auto
  qed
qed

lemma two_ok: "frames_ok two_pharmacy_results"
  by (simp add: two_pharmacy_results_def frames_ok_def frame_ok_def frame_empty_def has_column_def)





subsection \<open>The row of one pharmacy\<close>

lemma single_pharmacy_score_result:
  assumes "frames_ok ar" and "dataset_ok df"
  shows "\<exists>outlier explanation.
    calculate_outlier_score p ar = Inr outlier \<and>
    generate_fraud_explanation (reported_scores p ar)
      (map (\<lambda>(a, r). (a, reason r)) (reported_findings p ar))
      (get_pharmacy_transactions p df) = Inr explanation \<and>
    calculate_single_pharmacy_score w trk p ar df =
      (Inr \<lparr>res_pharmacy_number = p,
            res_pharmacy_name = coverage_detail
               (map (\<lambda>(a, f). (a, columns f, first_finding p f)) (filter (\<lambda>(a, f). reports p f) ar))
               ''pharmacy_name'' pharmacy_name,
            res_pharmacy_city = coverage_detail
               (map (\<lambda>(a, f). (a, columns f, first_finding p f)) (filter (\<lambda>(a, f). reports p f) ar))
               ''pharmacy_city'' pharmacy_city,
            res_pharmacy_state = coverage_detail
               (map (\<lambda>(a, f). (a, columns f, first_finding p f)) (filter (\<lambda>(a, f). reports p f) ar))
               ''pharmacy_state'' pharmacy_state,
            weighted_score = py_round (final_score_of (weighted_sum w (reported_scores p ar))
               (calculate_consistency_score (reported_scores p ar)) outlier) 3,
            contributing_agents = map fst (reported_scores p ar),
            agent_scores = reported_scores p ar,
            agent_reasons = map (\<lambda>(a, r). (a, reason r)) (reported_findings p ar),
            consistency_score = py_round (calculate_consistency_score (reported_scores p ar)) 3,
            outlier_score = py_round outlier 3,
            fraud_explanation = explanation,
            transaction_count = length (df_rows (get_pharmacy_transactions p df)),
            risk_level = determine_risk_level (final_score_of (weighted_sum w (reported_scores p ar))
               (calculate_consistency_score (reported_scores p ar)) outlier),
            rank = None\<rparr>,
       track_cross_agent_communication trk)"
proof -
  let ?found = "map (\<lambda>(a, f). (a, columns f, first_finding p f)) (filter (\<lambda>(a, f). reports p f) ar)"
  have c: "collect_pharmacy p ar = Inr ?found"
    by (rule collect_pharmacy_ok [OF assms(1)])
  have sc: "map (\<lambda>(agent_name, cols, r). (agent_name, fraud_score r)) ?found = reported_scores p ar"
    by (simp add: reported_scores_def reported_findings_def split_def o_def)
  have rs: "map (\<lambda>(agent_name, cols, r). (agent_name, reason r)) ?found
      = map (\<lambda>(a, r). (a, reason r)) (reported_findings p ar)"
    by (simp add: reported_findings_def split_def o_def)
  obtain outlier where o: "calculate_outlier_score p ar = Inr outlier"
    using calculate_outlier_score_ok [OF assms(1), of p] by blast
  obtain explanation where e: "generate_fraud_explanation (reported_scores p ar)
      (map (\<lambda>(a, r). (a, reason r)) (reported_findings p ar))
      (get_pharmacy_transactions p df) = Inr explanation"
    using explanation_ok [OF assms(2)] by blast
  show ?thesis
    unfolding calculate_single_pharmacy_score_def c Let_def sum.case sc rs o e
    by simp
qed

subsection \<open>The example with one reporting agent\<close>

lemma one_unit_ok: "frames_ok one_unit_results \<and> dataset_ok one_claim_dataset"
  by (simp add: one_unit_results_def frames_ok_def frame_ok_def frame_empty_def has_column_def
      dataset_ok_def one_claim_dataset_def)

lemma one_unit_reported:
  "reported_scores ''PH001'' one_unit_results = [(''coverage_agent'', 1)]"
  by (simp add: one_unit_results_def reported_scores_def reported_findings_def reports_def
      first_finding_def frame_empty_def has_column_def)

lemma one_unit_outlier: "calculate_outlier_score ''PH001'' one_unit_results = Inr 0.5"
  by (simp add: calculate_outlier_score_def pooled_scores_def one_unit_results_def
      frame_empty_def has_column_def np_std_def np_mean_def)

lemma one_unit_final:
  "py_round (final_score_of (weighted_sum default_weights [(''coverage_agent'', 1)])
     (calculate_consistency_score [(''coverage_agent'', 1)]) (1 / 2)) 3 = 13 / 40"
  by (simp add: final_score_of_def weighted_sum_def calculate_consistency_score_def dict_get_def
      default_weights_def py_round_def round_half_even_def)

lemma one_unit_row:
  "\<exists>r trk'. calculate_single_pharmacy_score default_weights None ''PH001'' one_unit_results one_claim_dataset = (Inr r, trk') \<and>
   agent_scores r = [(''coverage_agent'', 1)] \<and> weighted_score r = 0.325 \<and> rank r = None"
proof -
  from single_pharmacy_score_result [of one_unit_results one_claim_dataset "''PH001''" default_weights None]
    one_unit_ok
  obtain outlier explanation r where
    o: "calculate_outlier_score ''PH001'' one_unit_results = Inr outlier" and
    c: "calculate_single_pharmacy_score default_weights None ''PH001'' one_unit_results one_claim_dataset
          = (Inr r, track_cross_agent_communication None)" and
    r1: "agent_scores r = reported_scores ''PH001'' one_unit_results" and
    r2: "weighted_score r = py_round (final_score_of (weighted_sum default_weights (reported_scores ''PH001'' one_unit_results))
               (calculate_consistency_score (reported_scores ''PH001'' one_unit_results)) outlier) 3" and
    r3: "rank r = None"
    by force
  from o have "outlier = 0.5"
    by (simp add: one_unit_outlier)
  with r2 have "weighted_score r = 0.325"
    by (simp add: one_unit_reported one_unit_final)
  with c r1 r3 show ?thesis
    by (simp add: one_unit_reported)
qed

subsection \<open>Range of the outlier score\<close>





























subsection \<open>Weighted score\<close>

text \<open>
  C1 (as amended). For well-formed frames and dataset, scoring a pharmacy returns a row.
  The weighted sum computed for it is the sum, over the agents that report the pharmacy,
  of the score of the agent's first row for the pharmacy times the current weight of the
  agent (0 for an agent without a weight); nothing is divided by the weights of the
  reporting agents, so one agent reporting 1.0 with weight 0.25 gives the weighted sum
  0.25. The column \<open>weighted_score\<close> of the row does not hold this sum: it holds the final
  score, 0.7 times the weighted sum plus 0.2 times the consistency score plus 0.1 times the
  outlier score, rounded to 3 places.
\<close>

theorem weighted_sum_over_reporting_units:
  assumes "frames_ok ar" and "dataset_ok df"
  shows "\<exists>r outlier.
     calculate_single_pharmacy_score w trk p ar df = (Inr r, track_cross_agent_communication trk) \<and>
     calculate_outlier_score p ar = Inr outlier \<and>
     agent_scores r = reported_scores p ar \<and>
     weighted_sum w (agent_scores r) = (\<Sum>(a, s) \<leftarrow> reported_scores p ar. s * dict_get w a 0) \<and>
     (\<forall>a. reported_scores p ar = [(a, 1)] \<and> dict_get w a 0 = 0.25 \<longrightarrow>
          weighted_sum w (agent_scores r) = 0.25) \<and>
     weighted_score r =
       py_round (weighted_sum w (agent_scores r) * 0.7
                 + calculate_consistency_score (agent_scores r) * 0.2 + outlier * 0.1) 3"
proof -
  from single_pharmacy_score_result [OF assms, of p w trk]
  obtain outlier r where
    o: "calculate_outlier_score p ar = Inr outlier" and
    c: "calculate_single_pharmacy_score w trk p ar df = (Inr r, track_cross_agent_communication trk)" and
    r1: "agent_scores r = reported_scores p ar" and
    r2: "weighted_score r = py_round (final_score_of (weighted_sum w (reported_scores p ar))
               (calculate_consistency_score (reported_scores p ar)) outlier) 3"
    by force
  have s: "weighted_sum w (agent_scores r) = (\<Sum>(a, s) \<leftarrow> reported_scores p ar. s * dict_get w a 0)"
    by (simp add: r1 weighted_sum_eq)
  have one: "\<forall>a. reported_scores p ar = [(a, 1)] \<and> dict_get w a 0 = 0.25 \<longrightarrow>
          weighted_sum w (agent_scores r) = 0.25"
    by (simp add: s)
  have "weighted_score r =
       py_round (weighted_sum w (agent_scores r) * 0.7
                 + calculate_consistency_score (agent_scores r) * 0.2 + outlier * 0.1) 3"
    by (simp add: r2 r1 final_score_of_def)
  with o c r1 s one show ?thesis
    by blast
qed

theorem weighted_sum_over_reporting_units_witness:
  "frames_ok one_unit_results \<and> dataset_ok one_claim_dataset \<and>
   reported_scores ''PH001'' one_unit_results = [(''coverage_agent'', 1)] \<and>
   dict_get default_weights ''coverage_agent'' 0 = 0.25 \<and>
   weighted_sum default_weights (reported_scores ''PH001'' one_unit_results) = 0.25"
proof -
  have w: "dict_get default_weights ''coverage_agent'' 0 = 0.25"
    by (simp add: dict_get_def default_weights_def)
  note inst = weighted_sum_over_reporting_units [OF conjunct1 [OF one_unit_ok] conjunct2 [OF one_unit_ok],
      of default_weights None "''PH001''"]
  have "weighted_sum default_weights (reported_scores ''PH001'' one_unit_results) = 0.25"
  proof (rule exE [OF inst], elim exE conjE)
    fix r outlier
    assume a: "agent_scores r = reported_scores ''PH001'' one_unit_results"
      and b: "\<forall>a. reported_scores ''PH001'' one_unit_results = [(a, 1)] \<and>
          dict_get default_weights a 0 = 0.25 \<longrightarrow> weighted_sum default_weights (agent_scores r) = 0.25"
    from b w one_unit_reported have "weighted_sum default_weights (agent_scores r) = 0.25"
      by blast
    then show ?thesis
      by (simp only: a)
  qed
  with w one_unit_ok one_unit_reported show ?thesis
    by blast
qed

text \<open>
  The claim as first stated fails for the weighted score that the aggregation returns:
  with the default weights and the coverage agent alone reporting 1.0 (weight 0.25), the
  column \<open>weighted_score\<close> is 0.325, not 0.25.
\<close>

theorem exported_weighted_score_counterexample:
  "reported_scores ''PH001'' one_unit_results = [(''coverage_agent'', 1)] \<and>
   dict_get default_weights ''coverage_agent'' 0 = 0.25 \<and>
   map_sum id weighted_score
     (fst (calculate_single_pharmacy_score default_weights None ''PH001'' one_unit_results
             one_claim_dataset)) = Inr 0.325"
proof -
  from one_unit_row obtain r trk' where
    "calculate_single_pharmacy_score default_weights None ''PH001'' one_unit_results one_claim_dataset
       = (Inr r, trk')" and "weighted_score r = 0.325"
    by blast
  then show ?thesis
    by (simp add: one_unit_reported dict_get_def default_weights_def)
qed

subsection \<open>Columns of a row\<close>

text \<open>
  C2 (as amended). Every row that scoring a pharmacy returns has exactly the columns
  \<open>pharmacy_number\<close>, \<open>pharmacy_name\<close>, \<open>pharmacy_city\<close>, \<open>pharmacy_state\<close>,
  \<open>weighted_score\<close>, \<open>contributing_agents\<close>, \<open>agent_scores\<close>, \<open>agent_reasons\<close>,
  \<open>consistency_score\<close>, \<open>outlier_score\<close>, \<open>fraud_explanation\<close>, \<open>transaction_count\<close> and
  \<open>risk_level\<close>, in this order; there is no column \<open>final_score\<close>, and
  \<open>pharmacy_number\<close> is the pharmacy that was scored.
\<close>

theorem result_row_columns:
  assumes "calculate_single_pharmacy_score w trk p ar df = (Inr r, trk')"
  shows "column_names r =
      [''pharmacy_number'', ''pharmacy_name'', ''pharmacy_city'', ''pharmacy_state'',
       ''weighted_score'', ''contributing_agents'', ''agent_scores'', ''agent_reasons'',
       ''consistency_score'', ''outlier_score'', ''fraud_explanation'', ''transaction_count'',
       ''risk_level''] \<and>
     ''final_score'' \<notin> set (column_names r) \<and>
     res_pharmacy_number r = p"
  using assms
  by (auto simp add: calculate_single_pharmacy_score_def Let_def column_names_def to_dict_def
      split: sum.splits)

theorem result_row_columns_witness:
  "\<exists>r trk'. calculate_single_pharmacy_score default_weights None ''PH001'' one_unit_results
       one_claim_dataset = (Inr r, trk') \<and>
     column_names r =
      [''pharmacy_number'', ''pharmacy_name'', ''pharmacy_city'', ''pharmacy_state'',
       ''weighted_score'', ''contributing_agents'', ''agent_scores'', ''agent_reasons'',
       ''consistency_score'', ''outlier_score'', ''fraud_explanation'', ''transaction_count'',
       ''risk_level'']"
proof -
  from one_unit_row obtain r trk' where
    c: "calculate_single_pharmacy_score default_weights None ''PH001'' one_unit_results one_claim_dataset
       = (Inr r, trk')"
    by blast
  from result_row_columns [OF c] c show ?thesis
    by blast
qed

text \<open>
  The claim as first stated fails: the columns of the row of the example are not the
  eight fields \<open>entity_id\<close>, \<open>weighted_score\<close>, \<open>consistency_score\<close>, \<open>outlier_score\<close>,
  \<open>final_score\<close>, \<open>risk_level\<close>, \<open>contributing_units\<close>, \<open>explanation\<close>.
\<close>

theorem result_row_columns_counterexample:
  "map_sum id column_names
     (fst (calculate_single_pharmacy_score default_weights None ''PH001'' one_unit_results
             one_claim_dataset)) \<noteq>
   Inr [''entity_id'', ''weighted_score'', ''consistency_score'', ''outlier_score'',
        ''final_score'', ''risk_level'', ''contributing_units'', ''explanation'']"
proof -
  from one_unit_row obtain r trk' where
    c: "calculate_single_pharmacy_score default_weights None ''PH001'' one_unit_results one_claim_dataset
       = (Inr r, trk')" and "rank r = None"
    by blast
  then show ?thesis
    by (simp add: column_names_def to_dict_def)
qed

subsection \<open>Rounded scores and the risk level\<close>








subsection \<open>The tracker is not read\<close>

lemma single_score_tracker_free:
  "fst (calculate_single_pharmacy_score w trk1 p ar df) =
   fst (calculate_single_pharmacy_score w trk2 p ar df)"
  by (simp add: calculate_single_pharmacy_score_def Let_def split: sum.splits)

lemma score_pharmacies_tracker_free:
  "fst (score_pharmacies w trk1 ps ar df) = fst (score_pharmacies w trk2 ps ar df)"
proof (induction ps arbitrary: trk1 trk2)
  case Nil
  show ?case by simp
next
  case (Cons p ps)
  obtain x1 t1 where c1: "calculate_single_pharmacy_score w trk1 p ar df = (x1, t1)"
    by (cases "calculate_single_pharmacy_score w trk1 p ar df")
  obtain x2 t2 where c2: "calculate_single_pharmacy_score w trk2 p ar df = (x2, t2)"
    by (cases "calculate_single_pharmacy_score w trk2 p ar df")
  from single_score_tracker_free [of w trk1 p ar df trk2] c1 c2 have x: "x2 = x1"
    by simp
  obtain y1 u1 where s1: "score_pharmacies w t1 ps ar df = (y1, u1)"
    by (cases "score_pharmacies w t1 ps ar df")
  obtain y2 u2 where s2: "score_pharmacies w t2 ps ar df = (y2, u2)"
    by (cases "score_pharmacies w t2 ps ar df")
  from Cons.IH [of t1 t2] s1 s2 have y: "y2 = y1"
    by simp
  show ?case
    by (simp add: c1 c2 x s1 s2 y split: sum.splits)
qed

subsection \<open>The final stage\<close>

lemma length_assign_rank [simp]: "length (assign_rank xs) = length xs"
  by (simp add: assign_rank_def del: upt_Suc)

lemma assign_rank_Nil_iff [simp]: "assign_rank xs = [] \<longleftrightarrow> xs = []"
  by (metis length_assign_rank length_0_conv)

lemma assign_rank_nth:
  "i < length xs \<Longrightarrow> assign_rank xs ! i = (xs ! i)\<lparr>rank := Some (i + 1)\<rparr>"
  by (simp add: assign_rank_def del: upt_Suc)

lemma scores_assign_rank [simp]: "map weighted_score (assign_rank xs) = map weighted_score xs"
  by (rule nth_equalityI) (simp_all add: assign_rank_nth)

lemma ranks_assign_rank: "map rank (assign_rank xs) = map Some [1 ..< length xs + 1]"
  by (rule nth_equalityI) (simp_all add: assign_rank_nth del: upt_Suc)

lemma unrank_assign_rank [simp]:
  "map (\<lambda>r. r\<lparr>rank := None\<rparr>) (assign_rank xs) = map (\<lambda>r. r\<lparr>rank := None\<rparr>) xs"
  by (rule nth_equalityI) (simp_all add: assign_rank_nth)

lemma assign_rank_idem: "assign_rank (assign_rank xs) = assign_rank xs"
  by (rule nth_equalityI) (simp_all add: assign_rank_nth)

lemma descending_unique:
  fixes ks ks' :: "real list"
  assumes "sorted_wrt (\<ge>) ks" and "sorted_wrt (\<ge>) ks'" and "mset ks = mset ks'"
  shows "ks = ks'"
proof -
  have a: "sorted (rev ks)" and b: "sorted (rev ks')"
    using assms(1,2) by (simp_all add: sorted_wrt_rev)
  have "mset (rev ks) = mset (rev ks')"
    using assms(3) by simp
  with a b have "rev ks = rev ks'"
    by (metis properties_for_sort)
  then show ?thesis
    by simp
qed

lemma sort_values_ok_length:
  "sort_values_ok srt \<Longrightarrow> length (srt xs) = length xs"
  by (metis sort_values_ok_def size_mset)

lemma sort_values_ok_Nil_iff:
  "sort_values_ok srt \<Longrightarrow> srt xs = [] \<longleftrightarrow> xs = []"
  by (metis sort_values_ok_length length_0_conv)

lemma sort_values_ok_scores:
  "sort_values_ok srt \<Longrightarrow> sorted_wrt (\<ge>) (map weighted_score (srt xs))"
  by (simp add: sort_values_ok_def sorted_wrt_map)

lemma descending_rows_unique:
  assumes "sorted_wrt (\<lambda>a b. weighted_score a \<ge> weighted_score b) xs"
    and "sorted_wrt (\<lambda>a b. weighted_score a \<ge> weighted_score b) ys"
    and "mset xs = mset ys" and "distinct (map weighted_score xs)"
  shows "xs = ys"
proof -
  let ?f = "\<lambda>r. - weighted_score r"
  have sx: "sorted (map ?f xs)" and sy: "sorted (map ?f ys)"
    using assms(1,2) by (simp_all add: sorted_wrt_map)
  have "mset (map weighted_score xs) = mset (map weighted_score ys)"
    using assms(3) by simp
  with assms(4) have dy': "distinct (map weighted_score ys)"
    by (metis mset_eq_imp_distinct_iff)
  have neg: "inj_on ?f (set zs) \<longleftrightarrow> inj_on weighted_score (set zs)" for zs
    by (auto simp add: inj_on_def)
  have dx: "distinct (map ?f xs)" and dy: "distinct (map ?f ys)"
    using assms(4) dy' by (simp_all add: distinct_map neg)
  have "set xs = set ys"
    using assms(3) by (metis set_mset_mset)
  moreover have "inj_on ?f (set xs \<union> set ys)"
    using dx \<open>set xs = set ys\<close> by (simp add: distinct_map)
  ultimately show ?thesis
    using sx sy dx dy by (metis map_sorted_distinct_set_unique)
qed

lemma stable_sort_desc_ok: "sort_values_ok stable_sort_desc"
proof -
  have "sorted_wrt (\<lambda>a b. weighted_score a \<ge> weighted_score b) (stable_sort_desc xs)" for xs
  proof -
    have "sorted (map weighted_score (sort_key weighted_score (rev xs)))"
      by (rule sorted_sort_key)
    then have "sorted_wrt (\<lambda>x y. weighted_score x \<le> weighted_score y)
        (sort_key weighted_score (rev xs))"
      by (simp add: sorted_map)
    then show ?thesis
      by (simp add: stable_sort_desc_def sorted_wrt_rev)
  qed
  moreover have "mset (stable_sort_desc xs) = mset xs" for xs
    by (simp add: stable_sort_desc_def)
  ultimately show ?thesis
    by (simp add: sort_values_ok_def)
qed

lemma stable_sort_desc_sorted:
  assumes "sorted_wrt (\<lambda>a b. weighted_score a \<ge> weighted_score b) ys"
  shows "stable_sort_desc ys = ys"
proof -
  have "sorted (map weighted_score (rev ys))"
    using assms by (simp add: sorted_map sorted_wrt_rev)
  then have "sort_key weighted_score (rev ys) = rev ys"
    by (rule sort_key_id_if_sorted)
  then show ?thesis
    by (simp add: stable_sort_desc_def)
qed

lemma final_results_node_nonempty:
  assumes "sort_values_ok srt" and "st_weighted_results st \<noteq> []"
  shows "final_results_node srt st =
     st\<lparr>st_weighted_results := assign_rank (srt (st_weighted_results st)),
        st_final_results := assign_rank (srt (st_weighted_results st))\<rparr>"
    and "st_weighted_results (final_results_node srt st) \<noteq> []"
  using assms by (simp_all add: final_results_node_def Let_def sort_values_ok_Nil_iff)

text \<open>
  C9 (as amended). For every sort that rearranges the rows into descending order of the
  exported final score (the column \<open>weighted_score\<close>), the final stage returns the rows in
  descending order of that score with the ranks 1, 2, ..., n, and changes nothing else in
  a row. Applied to its own output it returns the same rows, the same sequence of scores
  and the same ranks 1, 2, ..., n, but rows with equal scores may exchange their ranks.
  The whole state is unchanged by the second application when the scores are pairwise
  distinct, and also when the sort leaves a frame that is already in descending order as
  it is.
\<close>

theorem finalize_sorts_ranks_idempotent:
  assumes "sort_values_ok sort_values"
  shows "let st1 = final_results_node sort_values st;
             st2 = final_results_node sort_values st1
         in sorted_wrt (\<ge>) (map weighted_score (st_final_results st1)) \<and>
            map rank (st_final_results st1) = map Some [1 ..< length (st_weighted_results st) + 1] \<and>
            mset (map (\<lambda>r. r\<lparr>rank := None\<rparr>) (st_final_results st1)) =
              mset (map (\<lambda>r. r\<lparr>rank := None\<rparr>) (st_weighted_results st)) \<and>
            map weighted_score (st_final_results st2) = map weighted_score (st_final_results st1) \<and>
            map rank (st_final_results st2) = map rank (st_final_results st1) \<and>
            mset (map (\<lambda>r. r\<lparr>rank := None\<rparr>) (st_final_results st2)) =
              mset (map (\<lambda>r. r\<lparr>rank := None\<rparr>) (st_final_results st1)) \<and>
            (distinct (map weighted_score (st_weighted_results st)) \<longrightarrow> st2 = st1) \<and>
            ((\<forall>ys. sorted_wrt (\<lambda>a b. weighted_score a \<ge> weighted_score b) ys \<longrightarrow> sort_values ys = ys)
               \<longrightarrow> st2 = st1)"
proof (cases "st_weighted_results st = []")
  case True
  then show ?thesis
    by (simp add: final_results_node_def Let_def)
next
  case False
  let ?xs = "st_weighted_results st"
  let ?ys = "assign_rank (sort_values ?xs)"
  let ?st1 = "final_results_node sort_values st"
  let ?st2 = "final_results_node sort_values ?st1"
  let ?desc = "\<lambda>a b. weighted_score a \<ge> weighted_score b"
  note n1 = final_results_node_nonempty [OF assms False]
  have st1: "?st1 = st\<lparr>st_weighted_results := ?ys, st_final_results := ?ys\<rparr>"
    by (rule n1(1))
  have w1: "st_weighted_results ?st1 = ?ys" and f1: "st_final_results ?st1 = ?ys"
    by (simp_all add: st1)
  have ne1: "st_weighted_results ?st1 \<noteq> []"
    by (rule n1(2))
  note n2 = final_results_node_nonempty [OF assms ne1]
  have st2: "?st2 = st\<lparr>st_weighted_results := assign_rank (sort_values ?ys),
      st_final_results := assign_rank (sort_values ?ys)\<rparr>"
    by (simp add: n2(1) w1) (simp add: st1)
  have f2: "st_final_results ?st2 = assign_rank (sort_values ?ys)"
    by (simp add: st2)
  have len: "length (sort_values zs) = length zs" for zs
    by (rule sort_values_ok_length [OF assms])
  have ms: "mset (sort_values zs) = mset zs" for zs
    using assms by (simp add: sort_values_ok_def)
  have srt: "sorted_wrt (\<ge>) (map weighted_score (sort_values zs))" for zs
    by (rule sort_values_ok_scores [OF assms])
  have srt': "sorted_wrt ?desc (sort_values zs)" for zs
    using assms by (simp add: sort_values_ok_def)
  have a: "sorted_wrt (\<ge>) (map weighted_score (st_final_results ?st1))"
    by (simp add: f1 srt)
  have b: "map rank (st_final_results ?st1) = map Some [1 ..< length ?xs + 1]"
    by (simp only: f1 ranks_assign_rank len)
  have "mset (map (\<lambda>r. r\<lparr>rank := None\<rparr>) (sort_values ?xs)) = mset (map (\<lambda>r. r\<lparr>rank := None\<rparr>) ?xs)"
    by (simp only: mset_map ms)
  then have c: "mset (map (\<lambda>r. r\<lparr>rank := None\<rparr>) (st_final_results ?st1)) =
      mset (map (\<lambda>r. r\<lparr>rank := None\<rparr>) ?xs)"
    by (simp add: f1)
  have "mset (map weighted_score (sort_values ?ys)) = mset (map weighted_score ?ys)"
    by (simp only: mset_map ms)
  with srt [of ?ys] srt [of ?xs] have keys: "map weighted_score (sort_values ?ys) = map weighted_score ?ys"
    by (intro descending_unique) simp_all
  have d: "map weighted_score (st_final_results ?st2) = map weighted_score (st_final_results ?st1)"
    by (simp add: f1 f2 keys)
  have e: "map rank (st_final_results ?st2) = map rank (st_final_results ?st1)"
    by (simp only: f1 f2 ranks_assign_rank len length_assign_rank)
  have "mset (map (\<lambda>r. r\<lparr>rank := None\<rparr>) (sort_values ?ys)) = mset (map (\<lambda>r. r\<lparr>rank := None\<rparr>) ?ys)"
    by (simp only: mset_map ms)
  then have e': "mset (map (\<lambda>r. r\<lparr>rank := None\<rparr>) (st_final_results ?st2)) =
      mset (map (\<lambda>r. r\<lparr>rank := None\<rparr>) (st_final_results ?st1))"
    by (simp add: f1 f2)
  have same: "?st2 = ?st1" if "sort_values ?ys = ?ys"
  proof -
    have "?st2 = st\<lparr>st_weighted_results := assign_rank ?ys, st_final_results := assign_rank ?ys\<rparr>"
      by (simp only: st2 that)
    also have "\<dots> = ?st1"
      by (simp only: st1 assign_rank_idem)
    finally show ?thesis .
  qed
  have "sorted_wrt (\<ge>) (map weighted_score ?ys)"
    by (simp add: srt)
  then have sorted_ys: "sorted_wrt ?desc ?ys"
    by (simp only: sorted_wrt_map)
  have f: "distinct (map weighted_score ?xs) \<longrightarrow> ?st2 = ?st1"
  proof
    assume dist: "distinct (map weighted_score ?xs)"
    have "mset (map weighted_score (sort_values ?xs)) = mset (map weighted_score ?xs)"
      by (simp only: mset_map ms)
    with dist have "distinct (map weighted_score (sort_values ?xs))"
      by (metis mset_eq_imp_distinct_iff)
    then have dys: "distinct (map weighted_score ?ys)"
      by simp
    have "?ys = sort_values ?ys"
      using sorted_ys srt' [of ?ys] ms [of ?ys] dys
      by (intro descending_rows_unique) simp_all
    then show "?st2 = ?st1"
      using same by simp
  qed
  have g: "(\<forall>ys. sorted_wrt ?desc ys \<longrightarrow> sort_values ys = ys) \<longrightarrow> ?st2 = ?st1"
    using sorted_ys same by blast
  from a b c d e e' f g show ?thesis
    unfolding Let_def by blast
qed

lemma three_rows_sorted:
  "stable_sort_desc three_rows =
     [blank_row\<lparr>res_pharmacy_number := ''PH002'', weighted_score := 0.8\<rparr>,
      blank_row\<lparr>res_pharmacy_number := ''PH003'', weighted_score := 0.61\<rparr>,
      blank_row\<lparr>res_pharmacy_number := ''PH001'', weighted_score := 0.325\<rparr>]"
  by (simp add: stable_sort_desc_def three_rows_def sort_key_def)

theorem finalize_sorts_ranks_idempotent_witness:
  "sort_values_ok stable_sort_desc \<and>
   distinct (map weighted_score (st_weighted_results example_state)) \<and>
   stable_sort_desc (stable_sort_desc three_rows) = stable_sort_desc three_rows \<and>
   map res_pharmacy_number (st_final_results (final_results_node stable_sort_desc example_state)) =
     [''PH002'', ''PH003'', ''PH001''] \<and>
   map rank (st_final_results (final_results_node stable_sort_desc example_state)) =
     [Some 1, Some 2, Some 3] \<and>
   final_results_node stable_sort_desc (final_results_node stable_sort_desc example_state) =
     final_results_node stable_sort_desc example_state"
proof -
  have d: "distinct (map weighted_score (st_weighted_results example_state))"
    by (simp add: example_state_def three_rows_def)
  have "sorted_wrt (\<lambda>a b. weighted_score a \<ge> weighted_score b) (stable_sort_desc three_rows)"
    using stable_sort_desc_ok by (simp add: sort_values_ok_def)
  then have s: "stable_sort_desc (stable_sort_desc three_rows) = stable_sort_desc three_rows"
    by (rule stable_sort_desc_sorted)
  have n: "map res_pharmacy_number (st_final_results (final_results_node stable_sort_desc example_state)) =
     [''PH002'', ''PH003'', ''PH001'']"
    by (simp add: final_results_node_def example_state_def Let_def three_rows_sorted assign_rank_def)
      (simp add: three_rows_def)
  have l: "[1 ..< length (st_weighted_results example_state) + 1] = [1, 2, 3]"
    by (simp add: example_state_def three_rows_def upt_rec)
  from finalize_sorts_ranks_idempotent [OF stable_sort_desc_ok, of example_state] d
  have "map rank (st_final_results (final_results_node stable_sort_desc example_state)) =
     [Some 1, Some 2, Some 3] \<and>
   final_results_node stable_sort_desc (final_results_node stable_sort_desc example_state) =
     final_results_node stable_sort_desc example_state"
    unfolding Let_def l by simp
  with stable_sort_desc_ok d s n show ?thesis
    by blast
qed

lemma reverse_stable_sort_ok: "sort_values_ok reverse_stable_sort"
proof -
  have "sorted_wrt (\<lambda>a b. weighted_score a \<ge> weighted_score b) (reverse_stable_sort xs)" for xs
  proof -
    have "sorted (map weighted_score (sort_key weighted_score xs))"
      by (rule sorted_sort_key)
    then have "sorted_wrt (\<lambda>x y. weighted_score x \<le> weighted_score y) (sort_key weighted_score xs)"
      by (simp add: sorted_map)
    then show ?thesis
      by (simp add: reverse_stable_sort_def sorted_wrt_rev)
  qed
  moreover have "mset (reverse_stable_sort xs) = mset xs" for xs
    by (simp add: reverse_stable_sort_def)
  ultimately show ?thesis
    by (simp add: sort_values_ok_def)
qed

text \<open>
  The claim as first stated fails: the final stage is not idempotent for every sort that
  the call of \<open>sort_values\<close> may be. With two pharmacies of equal score 0.8 and a sort that
  turns equal keys round, the first application ranks PH002 first and the second
  application ranks PH001 first.
\<close>

theorem finalize_ties_counterexample:
  "sort_values_ok reverse_stable_sort \<and>
   map weighted_score (st_weighted_results tie_state) = [0.8, 0.8] \<and>
   map res_pharmacy_number (st_final_results (final_results_node reverse_stable_sort tie_state)) =
     [''PH002'', ''PH001''] \<and>
   map rank (st_final_results (final_results_node reverse_stable_sort tie_state)) =
     [Some 1, Some 2] \<and>
   map res_pharmacy_number (st_final_results
      (final_results_node reverse_stable_sort (final_results_node reverse_stable_sort tie_state))) =
     [''PH001'', ''PH002''] \<and>
   map rank (st_final_results
      (final_results_node reverse_stable_sort (final_results_node reverse_stable_sort tie_state))) =
     [Some 1, Some 2]"
  using reverse_stable_sort_ok
  by (simp add: final_results_node_def tie_state_def Let_def reverse_stable_sort_def sort_key_def
      assign_rank_def blank_row_def upt_rec)

subsection \<open>The pool, the supervisor and the pipeline\<close>

lemma score_pharmacies_ok:
  assumes "frames_ok ar" and "dataset_ok df"
  shows "\<exists>rs trk'. score_pharmacies w trk ps ar df = (Inr rs, trk') \<and> map res_pharmacy_number rs = ps"
proof (induction ps arbitrary: trk)
  case Nil
  show ?case by simp
next
  case (Cons p ps)
  from single_pharmacy_score_result [OF assms, of p w trk]
  obtain r where c: "calculate_single_pharmacy_score w trk p ar df
      = (Inr r, track_cross_agent_communication trk)" and n: "res_pharmacy_number r = p"
    by force
  from Cons.IH [of "track_cross_agent_communication trk"]
  obtain rs trk' where s: "score_pharmacies w (track_cross_agent_communication trk) ps ar df = (Inr rs, trk')"
    and m: "map res_pharmacy_number rs = ps"
    by blast
  show ?case
    by (simp add: c s n m)
qed

lemma calculate_weighted_scores_ok:
  assumes "frames_ok ar" and "dataset_ok df"
  shows "\<exists>rs trk'. calculate_weighted_scores si w trk ar df = (Inr rs, trk') \<and>
     map res_pharmacy_number rs = si (pharmacy_insertions ar)"
proof -
  from score_pharmacies_ok [OF assms, of w trk "si (pharmacy_insertions ar)"]
  obtain rs trk' where "score_pharmacies w trk (si (pharmacy_insertions ar)) ar df = (Inr rs, trk')"
    and "map res_pharmacy_number rs = si (pharmacy_insertions ar)"
    by blast
  then show ?thesis
    by (simp add: calculate_weighted_scores_def Let_def)
qed








lemma names_assign_rank [simp]:
  "map res_pharmacy_number (assign_rank xs) = map res_pharmacy_number xs"
  by (rule nth_equalityI) (simp_all add: assign_rank_nth)








subsection \<open>A unit that always fails\<close>






subsection \<open>Determinism of the aggregation\<close>

lemma scored_pharmacy_number:
  "calculate_single_pharmacy_score w trk p ar df = (Inr r, trk') \<Longrightarrow> res_pharmacy_number r = p"
  by (auto simp add: calculate_single_pharmacy_score_def Let_def split: sum.splits)

lemma pharmacy_row_eq:
  "fst (calculate_single_pharmacy_score w trk p ar df) = pharmacy_row w p ar df"
  unfolding pharmacy_row_def by (rule single_score_tracker_free)

lemma score_pharmacies_rows:
  assumes "\<forall>p \<in> set ps. \<exists>r. pharmacy_row w p ar df = Inr r"
  shows "fst (score_pharmacies w trk ps ar df) = Inr (map (\<lambda>p. projr (pharmacy_row w p ar df)) ps)"
  using assms
proof (induction ps arbitrary: trk)
  case Nil
  show ?case by simp
next
  case (Cons p ps)
  from Cons.prems obtain r where r: "pharmacy_row w p ar df = Inr r"
    by auto
  obtain t1 where c: "calculate_single_pharmacy_score w trk p ar df = (Inr r, t1)"
    using pharmacy_row_eq [of w trk p ar df] r
    by (cases "calculate_single_pharmacy_score w trk p ar df") simp
  from Cons.prems have "\<forall>p \<in> set ps. \<exists>r. pharmacy_row w p ar df = Inr r"
    by simp
  from Cons.IH [OF this, of t1]
  obtain t2 where s: "score_pharmacies w t1 ps ar df = (Inr (map (\<lambda>p. projr (pharmacy_row w p ar df)) ps), t2)"
    by (cases "score_pharmacies w t1 ps ar df") simp
  show ?case
    by (simp add: c s r)
qed

lemma score_pharmacies_error:
  assumes "\<exists>p \<in> set ps. \<exists>e. pharmacy_row w p ar df = Inl e"
  shows "\<exists>e. fst (score_pharmacies w trk ps ar df) = Inl e"
  using assms
proof (induction ps arbitrary: trk)
  case Nil
  then show ?case by simp
next
  case (Cons p ps)
  obtain x t1 where c: "calculate_single_pharmacy_score w trk p ar df = (x, t1)"
    by (cases "calculate_single_pharmacy_score w trk p ar df")
  with pharmacy_row_eq [of w trk p ar df] have x: "pharmacy_row w p ar df = x"
    by simp
  show ?case
  proof (cases x)
    case (Inl e)
    then show ?thesis by (simp add: c)
  next
    case (Inr r)
    with Cons.prems x have "\<exists>p \<in> set ps. \<exists>e. pharmacy_row w p ar df = Inl e"
      by auto
    from Cons.IH [OF this, of t1] obtain e where "fst (score_pharmacies w t1 ps ar df) = Inl e"
      by blast
    then show ?thesis
      by (cases "score_pharmacies w t1 ps ar df") (simp add: c Inr)
  qed
qed

lemma calculate_weighted_scores_fst:
  "fst (calculate_weighted_scores si w trk ar df) =
     fst (score_pharmacies w trk (si (pharmacy_insertions ar)) ar df)"
  by (cases "score_pharmacies w trk (si (pharmacy_insertions ar)) ar df")
     (auto simp add: calculate_weighted_scores_def Let_def split: sum.splits)

lemma set_iteration_ok_mset:
  assumes "set_iteration_ok si1" and "set_iteration_ok si2"
  shows "mset (si1 xs) = mset (si2 xs)" and "set (si1 xs) = set xs"
proof -
  have "distinct (si1 xs)" "distinct (si2 xs)" "set (si1 xs) = set (si2 xs)"
    using assms by (simp_all add: set_iteration_ok_def)
  then show "mset (si1 xs) = mset (si2 xs)"
    by (simp add: set_eq_iff_mset_eq_distinct)
  show "set (si1 xs) = set xs"
    using assms(1) by (simp add: set_iteration_ok_def)
qed

text \<open>
  C8 (as amended). Every row of the result is the row that scoring its pharmacy gives, a
  function of the findings, the dataset and the weight vector alone; the tracker is never
  read. The rows come in the order in which the set of pharmacies is iterated, which
  Python does not fix. So two runs on the same findings, dataset and weights return the
  same rows, one for each pharmacy of the domain, in possibly different orders, or both
  raise an exception; they return identical lists when the set is iterated in the same
  order in both runs.
\<close>

theorem aggregation_deterministic_up_to_order:
  assumes "set_iteration_ok si1" and "set_iteration_ok si2"
  shows "(\<forall>rs1. fst (calculate_weighted_scores si1 w trk1 ar df) = Inr rs1 \<longrightarrow>
       rs1 = map (\<lambda>p. projr (pharmacy_row w p ar df)) (si1 (pharmacy_insertions ar)) \<and>
       map res_pharmacy_number rs1 = si1 (pharmacy_insertions ar) \<and>
       (\<exists>rs2. fst (calculate_weighted_scores si2 w trk2 ar df) = Inr rs2 \<and>
          rs2 = map (\<lambda>p. projr (pharmacy_row w p ar df)) (si2 (pharmacy_insertions ar)) \<and>
          mset rs2 = mset rs1)) \<and>
    (\<forall>e1. fst (calculate_weighted_scores si1 w trk1 ar df) = Inl e1 \<longrightarrow>
       (\<exists>e2. fst (calculate_weighted_scores si2 w trk2 ar df) = Inl e2)) \<and>
    (si1 = si2 \<longrightarrow>
       fst (calculate_weighted_scores si1 w trk1 ar df) =
       fst (calculate_weighted_scores si2 w trk2 ar df))"
proof -
  define xs where "xs = pharmacy_insertions ar"
  define row where "row = (\<lambda>p. projr (pharmacy_row w p ar df))"
  have m: "mset (si1 xs) = mset (si2 xs)" and s1: "set (si1 xs) = set xs" and s2: "set (si2 xs) = set xs"
    using set_iteration_ok_mset [OF assms] set_iteration_ok_mset(2) [OF assms(2) assms(1)]
    by simp_all
  have r1: "fst (calculate_weighted_scores si1 w trk1 ar df) = fst (score_pharmacies w trk1 (si1 xs) ar df)"
    and r2: "fst (calculate_weighted_scores si2 w trk2 ar df) = fst (score_pharmacies w trk2 (si2 xs) ar df)"
    unfolding xs_def by (rule calculate_weighted_scores_fst)+
  show ?thesis
  proof (cases "\<forall>p \<in> set xs. \<exists>r. pharmacy_row w p ar df = Inr r")
    case True
    have a1: "fst (calculate_weighted_scores si1 w trk1 ar df) = Inr (map row (si1 xs))"
      unfolding r1 row_def using True s1 by (intro score_pharmacies_rows) simp
    have a2: "fst (calculate_weighted_scores si2 w trk2 ar df) = Inr (map row (si2 xs))"
      unfolding r2 row_def using True s2 by (intro score_pharmacies_rows) simp
    have names: "map res_pharmacy_number (map row (si1 xs)) = si1 xs"
    proof -
      have "res_pharmacy_number (row p) = p" if "p \<in> set (si1 xs)" for p
      proof -
        from that True s1 obtain r where r: "pharmacy_row w p ar df = Inr r"
          by auto
        then obtain t where "calculate_single_pharmacy_score w None p ar df = (Inr r, t)"
          unfolding pharmacy_row_def
          by (cases "calculate_single_pharmacy_score w None p ar df") simp
        then have "res_pharmacy_number r = p"
          by (rule scored_pharmacy_number)
        with r show ?thesis
          by (simp add: row_def)
      qed
      then show ?thesis
        by (simp add: map_idI)
    qed
    have "image_mset row (mset (si2 xs)) = image_mset row (mset (si1 xs))"
      by (simp only: m)
    then have ms: "mset (map row (si2 xs)) = mset (map row (si1 xs))"
      by (simp only: mset_map)
    have same: "si1 = si2 \<longrightarrow> fst (calculate_weighted_scores si1 w trk1 ar df) =
       fst (calculate_weighted_scores si2 w trk2 ar df)"
    proof
      assume "si1 = si2"
      then show "fst (calculate_weighted_scores si1 w trk1 ar df) =
          fst (calculate_weighted_scores si2 w trk2 ar df)"
        unfolding r1 r2 by (simp add: score_pharmacies_tracker_free [of w trk1 _ ar df trk2])
    qed
    from a1 a2 names ms same show ?thesis
      unfolding xs_def [symmetric] row_def [symmetric] by simp
  next
    case False
    then have bad: "\<exists>p \<in> set xs. \<exists>e. pharmacy_row w p ar df = Inl e"
      by (metis sum.exhaust_sel sum.collapse)
    from bad s1 have "\<exists>p \<in> set (si1 xs). \<exists>e. pharmacy_row w p ar df = Inl e"
      by simp
    from score_pharmacies_error [OF this, of trk1]
    obtain e1 where b1: "fst (calculate_weighted_scores si1 w trk1 ar df) = Inl e1"
      unfolding r1 by blast
    from bad s2 have "\<exists>p \<in> set (si2 xs). \<exists>e. pharmacy_row w p ar df = Inl e"
      by simp
    from score_pharmacies_error [OF this, of trk2]
    obtain e2 where b2: "fst (calculate_weighted_scores si2 w trk2 ar df) = Inl e2"
      unfolding r2 by blast
    have same: "si1 = si2 \<longrightarrow> fst (calculate_weighted_scores si1 w trk1 ar df) =
       fst (calculate_weighted_scores si2 w trk2 ar df)"
    proof
      assume "si1 = si2"
      then show "fst (calculate_weighted_scores si1 w trk1 ar df) =
          fst (calculate_weighted_scores si2 w trk2 ar df)"
        unfolding r1 r2 by (simp add: score_pharmacies_tracker_free [of w trk1 _ ar df trk2])
    qed
    from b1 b2 same show ?thesis
      by simp
  qed
qed

lemma iteration_orders_ok: "set_iteration_ok remdups" "set_iteration_ok reversed_iteration"
  by (simp_all add: set_iteration_ok_def reversed_iteration_def)

lemma two_insertions: "pharmacy_insertions two_pharmacy_results = [''PH001'', ''PH002'']"
  by (simp add: pharmacy_insertions_def two_pharmacy_results_def frame_empty_def has_column_def
      unique_def)

theorem aggregation_deterministic_up_to_order_witness:
  "set_iteration_ok remdups \<and> set_iteration_ok reversed_iteration \<and>
   (\<exists>rs1 rs2.
      fst (calculate_weighted_scores remdups default_weights None two_pharmacy_results
             one_claim_dataset) = Inr rs1 \<and>
      fst (calculate_weighted_scores reversed_iteration default_weights (Some []) two_pharmacy_results
             one_claim_dataset) = Inr rs2 \<and>
      mset rs2 = mset rs1)"
proof -
  from calculate_weighted_scores_ok [OF two_ok conjunct2 [OF one_unit_ok], of remdups default_weights None]
  obtain rs1 where r1: "fst (calculate_weighted_scores remdups default_weights None two_pharmacy_results
             one_claim_dataset) = Inr rs1"
    by force
  from aggregation_deterministic_up_to_order [OF iteration_orders_ok, of default_weights None
      two_pharmacy_results one_claim_dataset "Some []"] r1
  have "\<exists>rs2. fst (calculate_weighted_scores reversed_iteration default_weights (Some [])
      two_pharmacy_results one_claim_dataset) = Inr rs2 \<and> mset rs2 = mset rs1"
    by blast
  with r1 iteration_orders_ok show ?thesis
    by blast
qed

text \<open>
  The claim as first stated fails: the same findings, dataset and weights give the rows of
  PH001 and PH002 in this order when the set is iterated in one admissible order, and in
  the opposite order when it is iterated in another.
\<close>

theorem aggregation_order_counterexample:
  "set_iteration_ok remdups \<and> set_iteration_ok reversed_iteration \<and>
   map_sum id (map res_pharmacy_number)
     (fst (calculate_weighted_scores remdups default_weights None two_pharmacy_results
             one_claim_dataset)) = Inr [''PH001'', ''PH002''] \<and>
   map_sum id (map res_pharmacy_number)
     (fst (calculate_weighted_scores reversed_iteration default_weights None two_pharmacy_results
             one_claim_dataset)) = Inr [''PH002'', ''PH001'']"
proof -
  from calculate_weighted_scores_ok [OF two_ok conjunct2 [OF one_unit_ok], of remdups default_weights None]
  obtain rs1 where "fst (calculate_weighted_scores remdups default_weights None two_pharmacy_results
             one_claim_dataset) = Inr rs1"
    and "map res_pharmacy_number rs1 = remdups (pharmacy_insertions two_pharmacy_results)"
    by force
  then have a: "map_sum id (map res_pharmacy_number)
     (fst (calculate_weighted_scores remdups default_weights None two_pharmacy_results
             one_claim_dataset)) = Inr [''PH001'', ''PH002'']"
    by (simp add: two_insertions)
  from calculate_weighted_scores_ok [OF two_ok conjunct2 [OF one_unit_ok], of reversed_iteration
      default_weights None]
  obtain rs2 where "fst (calculate_weighted_scores reversed_iteration default_weights None
      two_pharmacy_results one_claim_dataset) = Inr rs2"
    and "map res_pharmacy_number rs2 = reversed_iteration (pharmacy_insertions two_pharmacy_results)"
    by force
  then have b: "map_sum id (map res_pharmacy_number)
     (fst (calculate_weighted_scores reversed_iteration default_weights None two_pharmacy_results
             one_claim_dataset)) = Inr [''PH002'', ''PH001'']"
    by (simp add: two_insertions reversed_iteration_def)
  from a b iteration_orders_ok show ?thesis
    by blast
qed

end
